theory Spec2Isabelle
  imports Complex_Main "HOL-Library.Code_Target_Numeral"
begin

section \<open>The Canvas effect of \<open>ui/canvas.tsx\<close>\<close>

text \<open>
  The component \<open>Canvas\<close> runs one effect per mount. The effect creates the rendering
  context with \<open>init\<close>, keeps the closure variables \<open>context\<close>, \<open>size\<close> and \<open>disposed\<close>,
  starts the repaint loop, resizes the canvas, registers two listeners on \<open>window\<close> and
  returns the cleanup function. JavaScript runs every callback to completion on one
  thread, so each callback is one function from state to state, and the host (browser and
  UI framework) decides which callback runs next.
\<close>

subsection \<open>Numbers and \<open>toFixed(0)\<close>\<close>

text \<open>
  A JavaScript number is an IEEE 754 double. The numbers of this effect are the
  placeholder zeros and products of a client dimension and the pixel density.
  \<open>clientWidth\<close> and \<open>clientHeight\<close> are non-negative integers of the DOM (32-bit, so exact
  as doubles). \<open>devicePixelRatio\<close> is the browser's ratio of a CSS pixel to a device pixel,
  a finite double that is not negative: \<open>Double m e\<close> stands for the double \<open>m * 2^e\<close>
  (every such double has a mantissa below \<open>2^53\<close> and an exponent from \<open>-1074\<close> to \<open>971\<close>).
  A product is a finite double or, on overflow, \<open>Infinity\<close>.
\<close>

datatype double = Double nat int

datatype number = Finite rat | Infinity

definition pow2 :: "int \<Rightarrow> rat" where
  "pow2 e = (if 0 \<le> e then 2 ^ nat e else 1 / 2 ^ nat (- e))"

fun double_value :: "double \<Rightarrow> rat" where
  "double_value (Double m e) = of_nat m * pow2 e"

text \<open>The number of binary digits of \<open>n\<close>.\<close>

fun bits :: "nat \<Rightarrow> nat" where
  "bits n = (if n = 0 then 0 else Suc (bits (n div 2)))"

declare bits.simps [simp del]

text \<open>\<open>n / 2^s\<close> rounded to the nearest integer, a tie to the even one.\<close>

definition round_half_even :: "nat \<Rightarrow> nat \<Rightarrow> nat" where
  "round_half_even n s =
     (let q = n div 2 ^ s; r = n mod 2 ^ s
      in if 2 ^ s < 2 * r then q + 1
         else if 2 * r = 2 ^ s then (if even q then q else q + 1)
         else q)"

text \<open>
  The double nearest to \<open>n * 2^e\<close>, as IEEE 754 rounds a result (to nearest, ties to even):
  the mantissa keeps 53 binary digits, fewer where the exponent would fall below \<open>-1074\<close>,
  and a rounded value from \<open>2^1024\<close> on is \<open>Infinity\<close>.
\<close>

definition round_double :: "nat \<Rightarrow> int \<Rightarrow> number" where
  "round_double n e =
     (let s = nat (max (int (bits n) - 53) (- 1074 - e));
          m = round_half_even n s;
          x = of_nat m * pow2 (e + int s)
      in if 2 ^ 1024 \<le> x then Infinity else Finite x)"

text \<open>
  \<open>Number::multiply\<close> of a client dimension and the pixel density, as in
  \<open>canvas.clientWidth * devicePixelRatio\<close>: the exact product, rounded once.
\<close>

fun multiply :: "nat \<Rightarrow> double \<Rightarrow> number" where
  "multiply n (Double m e) = round_double (n * m) e"

declare multiply.simps [simp del]

text \<open>
  The text of an attribute. \<open>toFixed\<close> renders a number below \<open>10^21\<close> as a sign and
  decimal digits; from \<open>10^21\<close> on it returns the sign followed by the result of
  \<open>Number::toString\<close>, whose digits are not modelled: \<open>NumberToString s x\<close> stands for it.
\<close>

datatype js_string = Str string | NumberToString string rat

definition digit_char :: "nat \<Rightarrow> char" where
  "digit_char d = ''0123456789'' ! d"

fun digits10 :: "nat \<Rightarrow> string" where
  "digits10 n = (if n < 10 then [digit_char n] else digits10 (n div 10) @ [digit_char (n mod 10)])"

declare digits10.simps [simp del]

text \<open>
  \<open>Number.prototype.toFixed(0)\<close>. A number that is not finite is rendered by
  \<open>Number::toString\<close>. For a finite one the sign is split off, then \<open>n\<close> is the integer
  nearest to \<open>x\<close>, the larger one of two.
\<close>

fun toFixed0 :: "number \<Rightarrow> js_string" where
  "toFixed0 Infinity = Str ''Infinity''"
| "toFixed0 (Finite x0) =
     (let s = (if x0 < 0 then ''-'' else '''');
          x = (if x0 < 0 then - x0 else x0)
      in if 10 ^ 21 \<le> x then NumberToString s x
         else Str (s @ digits10 (nat \<lfloor>x + 1 / 2\<rfloor>)))"

text \<open>
  The number that the canvas reads from a dimension attribute: the text must be decimal
  digits, and it stands for their value.
\<close>

definition is_digit :: "char \<Rightarrow> bool" where
  "is_digit ch = (48 \<le> (of_char ch :: nat) \<and> (of_char ch :: nat) \<le> 57)"

definition digits_value :: "string \<Rightarrow> nat" where
  "digits_value ds = foldl (\<lambda>acc ch. 10 * acc + (of_char ch - 48)) 0 ds"

fun attribute_value :: "js_string \<Rightarrow> number option" where
  "attribute_value (Str ds) =
     (if ds \<noteq> [] \<and> list_all is_digit ds then Some (Finite (of_nat (digits_value ds))) else None)"
| "attribute_value (NumberToString s x) = None"

subsection \<open>Closure variables, host state and observable actions\<close>

datatype event_type = Resize | OrientationChange

datatype paint_outcome = Returns | Throws

text \<open>
  The trace records, in program order, the calls the effect makes to its collaborators and
  its assignments to the shared variables \<open>size\<close> and \<open>disposed\<close>. The host adds
  \<open>ListenerCalled\<close> when it calls the registered listener, \<open>TimerFired\<close> when it runs a
  queued timer, and \<open>Uncaught\<close> when an error leaves a frame callback.
\<close>

datatype 'c action =
    CallInit
  | CallPaint 'c number number
  | CallFree 'c
  | WriteSize number number
  | WriteDisposed bool
  | SetAttribute string js_string
  | RequestAnimationFrame
  | SetTimeout nat
  | AddEventListener event_type
  | RemoveEventListener event_type
  | ListenerCalled event_type
  | TimerFired
  | Uncaught

record 'c vars =
  context_var :: 'c
  size_var :: "number \<times> number"
  disposed :: bool

text \<open>
  The host as far as this mount sees it: the layout of the canvas element, its attributes,
  the animation-frame callbacks and the \<open>resize\<close> timers of this mount that are queued,
  and the event types for which this mount's \<open>requestResize\<close> is registered on \<open>window\<close>.
\<close>

record 'c host =
  clientWidth :: nat
  clientHeight :: nat
  devicePixelRatio :: double
  attributes :: "string \<rightharpoonup> js_string"
  frame_queue :: nat
  timer_queue :: nat
  listeners :: "event_type list"
  trace :: "'c action list"

type_synonym 'c state = "'c vars \<times> 'c host"

definition emit :: "'c action \<Rightarrow> 'c host \<Rightarrow> 'c host" where
  "emit a h = h\<lparr>trace := trace h @ [a]\<rparr>"

definition setAttribute :: "string \<Rightarrow> js_string \<Rightarrow> 'c host \<Rightarrow> 'c host" where
  "setAttribute name val h = emit (SetAttribute name val) (h\<lparr>attributes := (attributes h)(name \<mapsto> val)\<rparr>)"

definition setTimeout :: "nat \<Rightarrow> 'c host \<Rightarrow> 'c host" where
  "setTimeout ms h = emit (SetTimeout ms) (h\<lparr>timer_queue := timer_queue h + 1\<rparr>)"

definition requestAnimationFrame :: "'c host \<Rightarrow> 'c host" where
  "requestAnimationFrame h = emit RequestAnimationFrame (h\<lparr>frame_queue := frame_queue h + 1\<rparr>)"

text \<open>Registering a listener that is already registered for the type changes nothing.\<close>

definition addEventListener :: "event_type \<Rightarrow> 'c host \<Rightarrow> 'c host" where
  "addEventListener t h =
     emit (AddEventListener t)
       (h\<lparr>listeners := (if t \<in> set (listeners h) then listeners h else listeners h @ [t])\<rparr>)"

definition removeEventListener :: "event_type \<Rightarrow> 'c host \<Rightarrow> 'c host" where
  "removeEventListener t h = emit (RemoveEventListener t) (h\<lparr>listeners := removeAll t (listeners h)\<rparr>)"

subsection \<open>The functions of the effect\<close>

fun resize :: "'c state \<Rightarrow> 'c state" where
  "resize (v, h) =
     (if \<not> disposed v then
        let sz = (multiply (clientWidth h) (devicePixelRatio h),
                  multiply (clientHeight h) (devicePixelRatio h));
            v1 = v\<lparr>size_var := sz\<rparr>;
            h1 = emit (WriteSize (fst sz) (snd sz)) h;
            h2 = setAttribute ''width'' (toFixed0 (fst (size_var v1))) h1;
            h3 = setAttribute ''height'' (toFixed0 (snd (size_var v1))) h2
        in (v1, h3)
      else (v, h))"

fun requestResize :: "'c state \<Rightarrow> 'c state" where
  "requestResize (v, h) = (case resize (v, h) of (v1, h1) \<Rightarrow> (v1, setTimeout 200 h1))"

fun requestRepaint :: "'c state \<Rightarrow> 'c state" where
  "requestRepaint (v, h) = (v, requestAnimationFrame h)"

text \<open>
  The callback given to \<open>requestAnimationFrame\<close>. Whether \<open>paint\<close> returns or throws is
  the caller's business: the host supplies the outcome. A throw leaves the callback
  before \<open>requestRepaint()\<close> and reaches the host as an uncaught error.
\<close>

fun frame_callback :: "paint_outcome \<Rightarrow> 'c state \<Rightarrow> 'c state" where
  "frame_callback out (v, h) =
     (if \<not> disposed v then
        let h1 = emit (CallPaint (context_var v) (fst (size_var v)) (snd (size_var v))) h
        in (case out of
              Throws \<Rightarrow> (v, emit Uncaught h1)
            | Returns \<Rightarrow> requestRepaint (v, h1))
      else (v, h))"

text \<open>
  The effect itself. \<open>init\<close> is the outcome of \<open>init(canvas)\<close>: \<open>Inl e\<close> when it throws
  \<open>e\<close>, \<open>Inr c\<close> when it returns the context \<open>c\<close>. A throw leaves the effect at once.
\<close>

definition effect_body :: "'c \<Rightarrow> 'c host \<Rightarrow> 'c state" where
  "effect_body c h =
     (let v = \<lparr>context_var = c, size_var = (Finite 0, Finite 0), disposed = False\<rparr>;
          s1 = requestRepaint (v, h);
          s2 = requestResize s1;
          h3 = addEventListener Resize (snd s2);
          h4 = addEventListener OrientationChange h3
      in (fst s2, h4))"

definition effect :: "'e + 'c \<Rightarrow> 'c host \<Rightarrow> 'e \<times> 'c host + 'c state" where
  "effect init h =
     (case init of
        Inl e \<Rightarrow> Inl (e, emit CallInit h)
      | Inr c \<Rightarrow> Inr (effect_body c (emit CallInit h)))"

text \<open>The cleanup function returned by the effect.\<close>

fun cleanup :: "'c state \<Rightarrow> 'c state" where
  "cleanup (v, h) =
     (let v1 = v\<lparr>disposed := True\<rparr>;
          h1 = emit (WriteDisposed True) h;
          h2 = removeEventListener Resize h1;
          h3 = removeEventListener OrientationChange h2;
          h4 = emit (CallFree (context_var v1)) h3
      in (v1, h4))"

subsection \<open>The host's moves\<close>

text \<open>
  Between mount and unmount, and after unmount, the host may run a queued frame
  callback, fire a queued timer, change the layout or the pixel density, or dispatch a
  viewport event to \<open>window\<close>, which reaches \<open>requestResize\<close> when it is registered.
\<close>

datatype event =
    Frame paint_outcome
  | Timer
  | LayoutChange nat nat double
  | Dispatch event_type

fun step :: "event \<Rightarrow> 'c state \<Rightarrow> 'c state" where
  "step (Frame out) (v, h) =
     (if frame_queue h = 0 then (v, h)
      else frame_callback out (v, h\<lparr>frame_queue := frame_queue h - 1\<rparr>))"
| "step Timer (v, h) =
     (if timer_queue h = 0 then (v, h)
      else resize (v, emit TimerFired (h\<lparr>timer_queue := timer_queue h - 1\<rparr>)))"
| "step (LayoutChange w ht d) (v, h) =
     (v, h\<lparr>clientWidth := w, clientHeight := ht, devicePixelRatio := d\<rparr>)"
| "step (Dispatch t) (v, h) =
     (if t \<in> set (listeners h) then requestResize (v, emit (ListenerCalled t) h) else (v, h))"

fun run :: "event list \<Rightarrow> 'c state \<Rightarrow> 'c state" where
  "run [] s = s"
| "run (e # es) s = run es (step e s)"

text \<open>A page whose canvas has the given layout and nothing queued or registered.\<close>

definition page :: "nat \<Rightarrow> nat \<Rightarrow> double \<Rightarrow> 'c host" where
  "page w ht d =
     \<lparr>clientWidth = w, clientHeight = ht, devicePixelRatio = d, attributes = Map.empty,
      frame_queue = 0, timer_queue = 0, listeners = [], trace = []\<rparr>"

text \<open>
  A mount followed by the host's moves, and a whole cycle: mount, moves, unmount (the
  framework calls the cleanup once), and the moves that follow the unmount.
\<close>

definition mounted :: "'c \<Rightarrow> 'c host \<Rightarrow> event list \<Rightarrow> 'c state" where
  "mounted c h evs = run evs (effect_body c (emit CallInit h))"

definition lifecycle :: "'c \<Rightarrow> 'c host \<Rightarrow> event list \<Rightarrow> event list \<Rightarrow> 'c state" where
  "lifecycle c h evs1 evs2 = run evs2 (cleanup (mounted c h evs1))"

subsection \<open>Observations on traces\<close>

text \<open>The actions that only the effect body and the cleanup perform.\<close>

fun is_lifecycle :: "'c action \<Rightarrow> bool" where
  "is_lifecycle CallInit = True"
| "is_lifecycle (CallFree c) = True"
| "is_lifecycle (WriteDisposed b) = True"
| "is_lifecycle (AddEventListener t) = True"
| "is_lifecycle (RemoveEventListener t) = True"
| "is_lifecycle a = False"

fun is_lifecycle_call :: "'c action \<Rightarrow> bool" where
  "is_lifecycle_call CallInit = True"
| "is_lifecycle_call (CallFree c) = True"
| "is_lifecycle_call (WriteDisposed b) = True"
| "is_lifecycle_call a = False"

fun is_registration :: "'c action \<Rightarrow> bool" where
  "is_registration CallInit = True"
| "is_registration (AddEventListener t) = True"
| "is_registration (RemoveEventListener t) = True"
| "is_registration a = False"

fun is_paint :: "'c action \<Rightarrow> bool" where
  "is_paint (CallPaint c w ht) = True"
| "is_paint a = False"

fun is_write :: "'c action \<Rightarrow> bool" where
  "is_write (WriteSize w ht) = True"
| "is_write a = False"

fun is_frame_work :: "'c action \<Rightarrow> bool" where
  "is_frame_work (CallPaint c w ht) = True"
| "is_frame_work RequestAnimationFrame = True"
| "is_frame_work a = False"

definition size_writes :: "'c action list \<Rightarrow> nat" where
  "size_writes t = length (filter is_write t)"

definition events_handled :: "'c action list \<Rightarrow> nat" where
  "events_handled t = length (filter (\<lambda>a. a = ListenerCalled Resize \<or> a = ListenerCalled OrientationChange) t)"

definition timers_fired :: "'c action list \<Rightarrow> nat" where
  "timers_fired t = length (filter (\<lambda>a. a = TimerFired) t)"

text \<open>What follows the assignment \<open>disposed = true\<close> in a trace, the assignment included.\<close>

definition after_disposal :: "'c action list \<Rightarrow> 'c action list" where
  "after_disposal t = dropWhile (\<lambda>a. a \<noteq> WriteDisposed True) t"

text \<open>
  \<open>written cur t\<close> is the size last written when \<open>t\<close> has run from a point where it was
  \<open>cur\<close> (\<open>None\<close>: the placeholder \<open>[0, 0]\<close> of the declaration, no write yet).
  \<open>paints_current cur t\<close> says that every call of \<open>paint\<close> in \<open>t\<close> receives the width
  and the height of the write that precedes it most closely.
\<close>

fun written :: "(number \<times> number) option \<Rightarrow> 'c action list \<Rightarrow> (number \<times> number) option" where
  "written cur [] = cur"
| "written cur (WriteSize w ht # t) = written (Some (w, ht)) t"
| "written cur (a # t) = written cur t"

fun paints_current :: "(number \<times> number) option \<Rightarrow> 'c action list \<Rightarrow> bool" where
  "paints_current cur [] = True"
| "paints_current cur (WriteSize w ht # t) = paints_current (Some (w, ht)) t"
| "paints_current cur (CallPaint c w ht # t) = (cur = Some (w, ht) \<and> paints_current cur t)"
| "paints_current cur (a # t) = paints_current cur t"

text \<open>The numbers given to \<open>paint\<close>, and the pixel densities the host moves to.\<close>

fun paint_args :: "(number \<Rightarrow> bool) \<Rightarrow> 'c action \<Rightarrow> bool" where
  "paint_args P (CallPaint c w ht) = (P w \<and> P ht)"
| "paint_args P a = True"

text \<open>
  Properties of the numbers: not negative; a whole number; a whole number unless the
  product has overflowed. A density given with an exponent that is not negative is a
  whole number, and every whole density can be given so.
\<close>

fun nonnegative :: "number \<Rightarrow> bool" where
  "nonnegative (Finite x) = (0 \<le> x)"
| "nonnegative Infinity = True"

fun integral :: "number \<Rightarrow> bool" where
  "integral (Finite x) = (of_int \<lfloor>x\<rfloor> = x)"
| "integral Infinity = False"

fun integral_or_overflow :: "number \<Rightarrow> bool" where
  "integral_or_overflow (Finite x) = (of_int \<lfloor>x\<rfloor> = x)"
| "integral_or_overflow Infinity = True"

fun whole :: "double \<Rightarrow> bool" where
  "whole (Double m e) = (0 \<le> e)"

fun density :: "(double \<Rightarrow> bool) \<Rightarrow> event \<Rightarrow> bool" where
  "density P (LayoutChange w ht d) = P d"
| "density P e = True"

text \<open>What a callback must not do once the mount is disposed.\<close>

fun is_live_work :: "'c action \<Rightarrow> bool" where
  "is_live_work (CallPaint c w ht) = True"
| "is_live_work (WriteSize w ht) = True"
| "is_live_work (SetAttribute name val) = True"
| "is_live_work RequestAnimationFrame = True"
| "is_live_work a = False"

text \<open>
  The invariant that ties the variable \<open>size\<close> to the trace: every \<open>paint\<close> so far got
  the latest write, and the variable holds the latest write.
\<close>

definition size_tracked :: "'c state \<Rightarrow> bool" where
  "size_tracked s = (paints_current None (trace (snd s)) \<and>
     written None (trace (snd s)) = Some (size_var (fst s)))"

section \<open>Facts about single steps and runs\<close>

lemmas host_ops = emit_def setAttribute_def setTimeout_def requestAnimationFrame_def
  addEventListener_def removeEventListener_def

lemmas rounding = multiply.simps round_double_def round_half_even_def pow2_def bits.simps

lemma products [simp]:
  "multiply 320 (Double 2 0) = Finite 640"
  "multiply 200 (Double 2 0) = Finite 400"
  "multiply 400 (Double 2 0) = Finite 800"
  by (simp_all add: rounding Let_def)

lemma step_disposed: "disposed (fst (step e s)) = disposed (fst s)"
  by (cases e; cases s) (simp_all add: host_ops Let_def split: paint_outcome.split)

lemma run_disposed: "disposed (fst (run evs s)) = disposed (fst s)"
  by (induction evs arbitrary: s) (simp_all add: step_disposed)

lemma step_context: "context_var (fst (step e s)) = context_var (fst s)"
  by (cases e; cases s) (simp_all add: host_ops Let_def split: paint_outcome.split)

lemma run_context: "context_var (fst (run evs s)) = context_var (fst s)"
  by (induction evs arbitrary: s) (simp_all add: step_context)

lemma step_lifecycle:
  "filter is_lifecycle (trace (snd (step e s))) = filter is_lifecycle (trace (snd s))"
  by (cases e; cases s) (simp_all add: host_ops Let_def split: paint_outcome.split)

lemma run_lifecycle:
  "filter is_lifecycle (trace (snd (run evs s))) = filter is_lifecycle (trace (snd s))"
  by (induction evs arbitrary: s) (simp_all add: step_lifecycle)

lemma step_extends: "\<exists>ys. trace (snd (step e s)) = trace (snd s) @ ys"
  by (cases e; cases s) (simp_all add: host_ops Let_def split: paint_outcome.split)

lemma run_extends: "\<exists>ys. trace (snd (run evs s)) = trace (snd s) @ ys"
proof (induction evs arbitrary: s)
  case Nil
  show ?case by simp
next
  case (Cons e es)
  obtain ys where ys: "trace (snd (step e s)) = trace (snd s) @ ys"
    using step_extends by blast
  obtain zs where "trace (snd (run es (step e s))) = trace (snd (step e s)) @ zs"
    using Cons.IH by blast
  with ys show ?case by simp
qed

lemma run_append: "run (xs @ ys) s = run ys (run xs s)"
  by (induction xs arbitrary: s) simp_all

lemma effect_body_trace:
  "trace (snd (effect_body c (emit CallInit h))) =
     trace h @ [CallInit, RequestAnimationFrame,
       WriteSize (multiply (clientWidth h) (devicePixelRatio h)) (multiply (clientHeight h) (devicePixelRatio h)),
       SetAttribute ''width'' (toFixed0 (multiply (clientWidth h) (devicePixelRatio h))),
       SetAttribute ''height'' (toFixed0 (multiply (clientHeight h) (devicePixelRatio h))),
       SetTimeout 200, AddEventListener Resize, AddEventListener OrientationChange]"
  by (simp add: effect_body_def host_ops Let_def)

lemma effect_body_vars:
  "fst (effect_body c (emit CallInit h)) =
     \<lparr>context_var = c,
      size_var = (multiply (clientWidth h) (devicePixelRatio h), multiply (clientHeight h) (devicePixelRatio h)),
      disposed = False\<rparr>"
  by (simp add: effect_body_def host_ops Let_def)

lemma mounted_vars:
  "context_var (fst (mounted c h evs)) = c" "\<not> disposed (fst (mounted c h evs))"
  by (simp_all add: mounted_def run_context run_disposed effect_body_vars)

lemma cleanup_trace:
  "trace (snd (cleanup s)) =
     trace (snd s) @ [WriteDisposed True, RemoveEventListener Resize,
       RemoveEventListener OrientationChange, CallFree (context_var (fst s))]"
  by (cases s) (simp add: host_ops Let_def)

lemma cleanup_vars: "fst (cleanup s) = (fst s)\<lparr>disposed := True\<rparr>"
  by (cases s) (simp add: Let_def)

lemma lifecycle_filter:
  "filter is_lifecycle (trace (snd (lifecycle c (page w ht d) evs1 evs2))) =
     [CallInit, AddEventListener Resize, AddEventListener OrientationChange,
      WriteDisposed True, RemoveEventListener Resize, RemoveEventListener OrientationChange,
      CallFree c]"
proof -
  have "filter is_lifecycle (trace (snd (mounted c (page w ht d) evs1))) =
      [CallInit, AddEventListener Resize, AddEventListener OrientationChange]"
    by (simp add: mounted_def run_lifecycle effect_body_trace page_def)
  then show ?thesis
    by (simp add: lifecycle_def run_lifecycle cleanup_trace mounted_vars)
qed

lemma filter_through:
  assumes "\<And>a. P a \<Longrightarrow> Q a"
  shows "filter P xs = filter P (filter Q xs)"
  using assms by (induction xs) auto

lemma lifecycle_call_sub: "is_lifecycle_call a \<Longrightarrow> is_lifecycle a"
  by (cases a) simp_all

lemma effect_returns: "effect (Inr c) h = Inr (mounted c h [])"
  by (simp add: effect_def mounted_def)

section \<open>The claims\<close>

subsection \<open>Init and free\<close>

text \<open>
  C1. In every cycle of mount, host moves, unmount and further host moves, \<open>init\<close> is
  called exactly once, \<open>context.free()\<close> is called exactly once, on the context that
  \<open>init\<close> returned, and the call of \<open>free\<close> comes after the one assignment
  \<open>disposed = true\<close>: the calls of \<open>init\<close> and \<open>free\<close> and the writes of \<open>disposed\<close>
  in the trace are exactly these three, in this order.
\<close>

theorem init_once_free_once_after_disposed:
  "effect (Inr c) (page w ht d) = Inr (mounted c (page w ht d) []) \<and>
   filter is_lifecycle_call (trace (snd (lifecycle c (page w ht d) evs1 evs2))) =
     [CallInit, WriteDisposed True, CallFree c] \<and>
   disposed (fst (lifecycle c (page w ht d) evs1 evs2))"
proof -
  have "filter is_lifecycle_call (trace (snd (lifecycle c (page w ht d) evs1 evs2))) =
      filter is_lifecycle_call (filter is_lifecycle (trace (snd (lifecycle c (page w ht d) evs1 evs2))))"
    by (rule filter_through) (rule lifecycle_call_sub)
  then have "filter is_lifecycle_call (trace (snd (lifecycle c (page w ht d) evs1 evs2))) =
      [CallInit, WriteDisposed True, CallFree c]"
    by (simp add: lifecycle_filter)
  moreover have "disposed (fst (lifecycle c (page w ht d) evs1 evs2))"
    by (simp add: lifecycle_def run_disposed cleanup_vars)
  ultimately show ?thesis
    by (simp add: effect_returns)
qed

theorem init_once_free_once_after_disposed_witness:
  "filter is_lifecycle_call
     (trace (snd (lifecycle (7::nat) (page 320 200 (Double 2 0))
        [Frame Returns, LayoutChange 400 200 (Double 2 0), Dispatch Resize, Timer] [Frame Returns, Timer]))) =
     [CallInit, WriteDisposed True, CallFree 7]"
  using init_once_free_once_after_disposed
    [of "7::nat" 320 200 "Double 2 0" "[Frame Returns, LayoutChange 400 200 (Double 2 0), Dispatch Resize, Timer]" "[Frame Returns, Timer]"]
  by blast

subsection \<open>The listeners on the window\<close>

lemma step_listeners: "listeners (snd (step e s)) = listeners (snd s)"
  by (cases e; cases s) (simp_all add: host_ops Let_def split: paint_outcome.split)

lemma run_listeners: "listeners (snd (run evs s)) = listeners (snd s)"
  by (induction evs arbitrary: s) (simp_all add: step_listeners)

lemma removeAll_both: "removeAll OrientationChange (removeAll Resize ts) = []"
proof (induction ts)
  case Nil
  show ?case by simp
next
  case (Cons t ts)
  then show ?case by (cases t) simp_all
qed

lemma cleanup_listeners: "listeners (snd (cleanup s)) = []"
  by (cases s) (simp add: host_ops Let_def removeAll_both)

lemma effect_body_listeners:
  "listeners h = [] \<Longrightarrow> listeners (snd (effect_body c (emit CallInit h))) = [Resize, OrientationChange]"
  by (simp add: effect_body_def host_ops Let_def)

lemma registration_sub: "is_registration a \<Longrightarrow> is_lifecycle a"
  by (cases a) simp_all

text \<open>
  C9. In every cycle the effect registers \<open>requestResize\<close> once for \<open>resize\<close> and once for
  \<open>orientationchange\<close>, after \<open>init\<close> has returned, and the cleanup removes each once:
  the calls of \<open>init\<close>, \<open>addEventListener\<close> and \<open>removeEventListener\<close> in the trace are
  exactly these five, in this order. Both listeners stay registered until the unmount,
  and none is registered after it.
\<close>

theorem listeners_added_once_removed_once:
  "filter is_registration (trace (snd (lifecycle c (page w ht d) evs1 evs2))) =
     [CallInit, AddEventListener Resize, AddEventListener OrientationChange,
      RemoveEventListener Resize, RemoveEventListener OrientationChange] \<and>
   listeners (snd (mounted c (page w ht d) evs1)) = [Resize, OrientationChange] \<and>
   listeners (snd (lifecycle c (page w ht d) evs1 evs2)) = []"
proof -
  have "filter is_registration (trace (snd (lifecycle c (page w ht d) evs1 evs2))) =
      filter is_registration (filter is_lifecycle (trace (snd (lifecycle c (page w ht d) evs1 evs2))))"
    by (rule filter_through) (rule registration_sub)
  then have "filter is_registration (trace (snd (lifecycle c (page w ht d) evs1 evs2))) =
     [CallInit, AddEventListener Resize, AddEventListener OrientationChange,
      RemoveEventListener Resize, RemoveEventListener OrientationChange]"
    by (simp add: lifecycle_filter)
  moreover have "listeners (snd (mounted c (page w ht d) evs1)) = [Resize, OrientationChange]"
    by (simp add: mounted_def run_listeners effect_body_listeners page_def)
  moreover have "listeners (snd (lifecycle c (page w ht d) evs1 evs2)) = []"
    by (simp add: lifecycle_def run_listeners cleanup_listeners)
  ultimately show ?thesis by blast
qed

theorem listeners_added_once_removed_once_witness:
  "filter is_registration
     (trace (snd (lifecycle (7::nat) (page 320 200 (Double 2 0)) [Dispatch Resize, Frame Returns] [Dispatch OrientationChange, Timer]))) =
     [CallInit, AddEventListener Resize, AddEventListener OrientationChange,
      RemoveEventListener Resize, RemoveEventListener OrientationChange] \<and>
   listeners (snd (lifecycle (7::nat) (page 320 200 (Double 2 0)) [Dispatch Resize, Frame Returns] [Dispatch OrientationChange, Timer])) = []"
  using listeners_added_once_removed_once
    [of "7::nat" 320 200 "Double 2 0" "[Dispatch Resize, Frame Returns]" "[Dispatch OrientationChange, Timer]"]
  by blast

subsection \<open>An init that throws\<close>

text \<open>
  C7. When \<open>init\<close> throws \<open>e\<close>, the effect ends with \<open>e\<close> for its caller and has done
  nothing but call \<open>init\<close>: the trace grows by this call alone (no \<open>paint\<close>, no
  \<open>requestAnimationFrame\<close>, no \<open>setTimeout\<close>, no \<open>addEventListener\<close>), and the queues of
  frame callbacks and timers, the listeners and the attributes are as before.
\<close>

theorem init_throws_nothing_started:
  "effect (Inl e) h = Inl (e, emit CallInit h) \<and>
   trace (emit CallInit h) = trace h @ [CallInit] \<and>
   frame_queue (emit CallInit h) = frame_queue h \<and>
   timer_queue (emit CallInit h) = timer_queue h \<and>
   listeners (emit CallInit h) = listeners h \<and>
   attributes (emit CallInit h) = attributes h"
  by (simp add: effect_def emit_def)

theorem init_throws_nothing_started_witness:
  "effect (Inl ''context lost'') (page 320 200 (Double 2 0) :: nat host) = Inl (''context lost'', emit CallInit (page 320 200 (Double 2 0))) \<and>
   trace (emit CallInit (page 320 200 (Double 2 0) :: nat host)) = [CallInit] \<and>
   frame_queue (emit CallInit (page 320 200 (Double 2 0) :: nat host)) = 0 \<and>
   timer_queue (emit CallInit (page 320 200 (Double 2 0) :: nat host)) = 0 \<and>
   listeners (emit CallInit (page 320 200 (Double 2 0) :: nat host)) = []"
  using init_throws_nothing_started [of "''context lost''" "page 320 200 (Double 2 0) :: nat host"]
  by (simp add: page_def)

subsection \<open>After the unmount\<close>

lemma step_quiet:
  "disposed (fst s) \<Longrightarrow> filter is_live_work (trace (snd (step e s))) = filter is_live_work (trace (snd s))"
  by (cases e; cases s) (simp_all add: host_ops Let_def)

lemma run_quiet:
  "disposed (fst s) \<Longrightarrow> filter is_live_work (trace (snd (run evs s))) = filter is_live_work (trace (snd s))"
  by (induction evs arbitrary: s) (simp_all add: step_quiet step_disposed)

lemma paint_sub: "is_paint a \<Longrightarrow> is_live_work a"
  by (cases a) simp_all

lemma write_sub: "is_write a \<Longrightarrow> is_live_work a"
  by (cases a) simp_all

lemma mounted_not_disposing: "WriteDisposed True \<notin> set (trace (snd (mounted c (page w ht d) evs)))"
proof
  assume "WriteDisposed True \<in> set (trace (snd (mounted c (page w ht d) evs)))"
  then have "WriteDisposed True \<in> set (filter is_lifecycle (trace (snd (mounted c (page w ht d) evs))))"
    by simp
  then show False
    by (simp add: mounted_def run_lifecycle effect_body_trace page_def)
qed

lemma lifecycle_split:
  "\<exists>ys. trace (snd (lifecycle c (page w ht d) evs1 evs2)) =
          trace (snd (mounted c (page w ht d) evs1)) @
          [WriteDisposed True, RemoveEventListener Resize, RemoveEventListener OrientationChange, CallFree c] @ ys \<and>
        filter is_live_work ys = []"
proof -
  let ?m = "mounted c (page w ht d) evs1"
  obtain ys where ys: "trace (snd (run evs2 (cleanup ?m))) = trace (snd (cleanup ?m)) @ ys"
    using run_extends by blast
  have "filter is_live_work (trace (snd (run evs2 (cleanup ?m)))) = filter is_live_work (trace (snd (cleanup ?m)))"
    by (rule run_quiet) (simp add: cleanup_vars)
  with ys have "filter is_live_work ys = []" by simp
  with ys show ?thesis
    by (simp add: lifecycle_def cleanup_trace mounted_vars)
qed

lemma lifecycle_after_disposal:
  "\<exists>ys. after_disposal (trace (snd (lifecycle c (page w ht d) evs1 evs2))) =
          [WriteDisposed True, RemoveEventListener Resize, RemoveEventListener OrientationChange, CallFree c] @ ys \<and>
        filter is_live_work ys = []"
proof -
  obtain ys where ys: "trace (snd (lifecycle c (page w ht d) evs1 evs2)) =
          trace (snd (mounted c (page w ht d) evs1)) @
          [WriteDisposed True, RemoveEventListener Resize, RemoveEventListener OrientationChange, CallFree c] @ ys"
      and q: "filter is_live_work ys = []"
    using lifecycle_split [of c w ht d evs1 evs2] by blast
  have "after_disposal (trace (snd (lifecycle c (page w ht d) evs1 evs2))) =
      [WriteDisposed True, RemoveEventListener Resize, RemoveEventListener OrientationChange, CallFree c] @ ys"
    unfolding after_disposal_def ys
    using mounted_not_disposing [of c w ht d evs1]
    by (subst dropWhile_append2) auto
  with q show ?thesis by blast
qed

text \<open>
  C2. In every cycle the trace from the assignment \<open>disposed = true\<close> on holds no call of
  \<open>paint\<close>, whatever frame callbacks were queued when the cleanup ran, and the flag is
  true at the end of every continuation. From any state whose flag is true, no host move
  makes it false or calls \<open>paint\<close>.
\<close>

theorem no_paint_after_disposed:
  "take 1 (after_disposal (trace (snd (lifecycle c (page w ht d) evs1 evs2)))) = [WriteDisposed True] \<and>
   filter is_paint (after_disposal (trace (snd (lifecycle c (page w ht d) evs1 evs2)))) = [] \<and>
   disposed (fst (lifecycle c (page w ht d) evs1 evs2)) \<and>
   (disposed (fst s) \<longrightarrow>
      disposed (fst (run evs s)) \<and>
      filter is_paint (trace (snd (run evs s))) = filter is_paint (trace (snd s)))"
proof -
  obtain ys where ys: "after_disposal (trace (snd (lifecycle c (page w ht d) evs1 evs2))) =
          [WriteDisposed True, RemoveEventListener Resize, RemoveEventListener OrientationChange, CallFree c] @ ys"
      and q: "filter is_live_work ys = []"
    using lifecycle_after_disposal [of c w ht d evs1 evs2] by blast
  have "filter is_paint ys = filter is_paint (filter is_live_work ys)"
    by (rule filter_through) (rule paint_sub)
  with q have a: "filter is_paint (after_disposal (trace (snd (lifecycle c (page w ht d) evs1 evs2)))) = []"
    by (simp add: ys)
  have b: "take 1 (after_disposal (trace (snd (lifecycle c (page w ht d) evs1 evs2)))) = [WriteDisposed True]"
    by (simp add: ys)
  have c: "disposed (fst (lifecycle c (page w ht d) evs1 evs2))"
    by (simp add: lifecycle_def run_disposed cleanup_vars)
  have d: "filter is_paint (trace (snd (run evs s))) = filter is_paint (trace (snd s))" if "disposed (fst s)"
  proof -
    have "filter is_paint (trace (snd (run evs s))) = filter is_paint (filter is_live_work (trace (snd (run evs s))))"
      by (rule filter_through) (rule paint_sub)
    also have "\<dots> = filter is_paint (filter is_live_work (trace (snd s)))"
      using that by (simp add: run_quiet)
    also have "\<dots> = filter is_paint (trace (snd s))"
      by (rule filter_through [symmetric]) (rule paint_sub)
    finally show ?thesis .
  qed
  from a b c d show ?thesis
    by (simp add: run_disposed)
qed

theorem no_paint_after_disposed_witness:
  "filter is_paint (after_disposal (trace (snd
      (lifecycle (7::nat) (page 320 200 (Double 2 0)) [Frame Returns] [Frame Returns, Timer])))) = [] \<and>
   disposed (fst (cleanup (mounted (7::nat) (page 320 200 (Double 2 0)) [Frame Returns]))) \<and>
   frame_queue (snd (cleanup (mounted (7::nat) (page 320 200 (Double 2 0)) [Frame Returns]))) = 1 \<and>
   disposed (fst (run [Frame Returns] (cleanup (mounted (7::nat) (page 320 200 (Double 2 0)) [Frame Returns])))) \<and>
   filter is_paint (trace (snd (run [Frame Returns] (cleanup (mounted (7::nat) (page 320 200 (Double 2 0)) [Frame Returns]))))) =
     filter is_paint (trace (snd (cleanup (mounted (7::nat) (page 320 200 (Double 2 0)) [Frame Returns]))))"
proof -
  have q: "frame_queue (snd (cleanup (mounted (7::nat) (page 320 200 (Double 2 0)) [Frame Returns]))) = 1"
    by (simp add: mounted_def effect_body_def host_ops page_def Let_def)
  have d: "disposed (fst (cleanup (mounted (7::nat) (page 320 200 (Double 2 0)) [Frame Returns])))"
    by (simp add: cleanup_vars)
  from q d show ?thesis
    using no_paint_after_disposed
      [of "7::nat" 320 200 "Double 2 0" "[Frame Returns]" "[Frame Returns, Timer]"
          "cleanup (mounted (7::nat) (page 320 200 (Double 2 0)) [Frame Returns])" "[Frame Returns]"]
    by blast
qed

subsection \<open>The size that paint receives\<close>

lemma written_append: "written cur (xs @ ys) = written (written cur xs) ys"
  by (induction cur xs rule: written.induct) simp_all

lemma paints_current_append:
  "paints_current cur (xs @ ys) = (paints_current cur xs \<and> paints_current (written cur xs) ys)"
  by (induction cur xs rule: paints_current.induct) simp_all

lemma step_size_tracked: "size_tracked s \<Longrightarrow> size_tracked (step e s)"
  by (cases e; cases s)
    (simp_all add: size_tracked_def host_ops Let_def paints_current_append written_append
      split: paint_outcome.split)

lemma run_size_tracked: "size_tracked s \<Longrightarrow> size_tracked (run evs s)"
  by (induction evs arbitrary: s) (simp_all add: step_size_tracked)

lemma cleanup_size_tracked: "size_tracked s \<Longrightarrow> size_tracked (cleanup s)"
  by (cases s) (simp add: size_tracked_def host_ops Let_def paints_current_append written_append)

lemma effect_body_size_tracked: "size_tracked (effect_body c (emit CallInit (page w ht d)))"
  by (simp add: size_tracked_def effect_body_def host_ops Let_def page_def)

text \<open>
  C8. In every run and in every cycle, each call of \<open>paint\<close> receives the pair that the
  write of \<open>size\<close> preceding it most closely stored: width and height of the same
  assignment, and the variable itself always holds the latest write.
\<close>

theorem paint_sees_latest_write:
  "paints_current None (trace (snd (mounted c (page w ht d) evs))) \<and>
   written None (trace (snd (mounted c (page w ht d) evs))) =
     Some (size_var (fst (mounted c (page w ht d) evs))) \<and>
   paints_current None (trace (snd (lifecycle c (page w ht d) evs evs2)))"
proof -
  have m: "size_tracked (mounted c (page w ht d) evs)"
    by (simp add: mounted_def run_size_tracked effect_body_size_tracked)
  then have "size_tracked (lifecycle c (page w ht d) evs evs2)"
    by (simp add: lifecycle_def run_size_tracked cleanup_size_tracked)
  with m show ?thesis
    by (simp add: size_tracked_def)
qed

theorem paint_sees_latest_write_witness:
  "paints_current None (trace (snd (mounted (7::nat) (page 320 200 (Double 2 0))
      [Frame Returns, LayoutChange 400 200 (Double 2 0), Frame Returns, Dispatch Resize, Frame Returns]))) \<and>
   filter (\<lambda>a. is_paint a \<or> is_write a) (trace (snd (mounted (7::nat) (page 320 200 (Double 2 0))
      [Frame Returns, LayoutChange 400 200 (Double 2 0), Frame Returns, Dispatch Resize, Frame Returns]))) =
     [WriteSize (Finite 640) (Finite 400), CallPaint 7 (Finite 640) (Finite 400), CallPaint 7 (Finite 640) (Finite 400), WriteSize (Finite 800) (Finite 400), CallPaint 7 (Finite 800) (Finite 400)]"
proof -
  have "filter (\<lambda>a. is_paint a \<or> is_write a) (trace (snd (mounted (7::nat) (page 320 200 (Double 2 0))
      [Frame Returns, LayoutChange 400 200 (Double 2 0), Frame Returns, Dispatch Resize, Frame Returns]))) =
     [WriteSize (Finite 640) (Finite 400), CallPaint 7 (Finite 640) (Finite 400), CallPaint 7 (Finite 640) (Finite 400), WriteSize (Finite 800) (Finite 400), CallPaint 7 (Finite 800) (Finite 400)]"
    by (simp add: mounted_def effect_body_def host_ops page_def Let_def)
  then show ?thesis
    using paint_sees_latest_write [of "7::nat" 320 200 "Double 2 0"
      "[Frame Returns, LayoutChange 400 200 (Double 2 0), Frame Returns, Dispatch Resize, Frame Returns]" "[]"]
    by blast
qed

subsection \<open>The first paint\<close>

lemma written_Some: "written (Some x) t \<noteq> None"
  by (induction "Some x" t arbitrary: x rule: written.induct) simp_all

lemma mounted_extends:
  "\<exists>ys. trace (snd (mounted c h evs)) = trace (snd (mounted c h [])) @ ys"
  using run_extends [of evs "effect_body c (emit CallInit h)"] by (simp add: mounted_def)

lemma mounted_trace:
  "trace (snd (mounted c (page w ht d) [])) =
     [CallInit, RequestAnimationFrame, WriteSize (multiply w d) (multiply ht d),
      SetAttribute ''width'' (toFixed0 (multiply w d)),
      SetAttribute ''height'' (toFixed0 (multiply ht d)),
      SetTimeout 200, AddEventListener Resize, AddEventListener OrientationChange]"
  by (simp add: mounted_def effect_body_trace) (simp add: page_def)

lemma first_frame_trace:
  "trace (snd (step (Frame Returns) (mounted c (page w ht d) []))) =
     trace (snd (mounted c (page w ht d) [])) @
       [CallPaint c (multiply w d) (multiply ht d), RequestAnimationFrame]"
  by (simp add: mounted_def effect_body_def host_ops page_def Let_def)

text \<open>
  C10. The effect queues the first frame callback and then, in the same run to
  completion, writes \<open>size\<close> from the layout: the trace of the mount holds the request
  for the frame, then the write, and no call of \<open>paint\<close>. Every run starts with this trace,
  so a write precedes the first call of \<open>paint\<close>, which receives the latest write and
  never the placeholder of the declaration; when the frame callback is the host's first
  move, it receives the size written by the mount.
\<close>

theorem first_paint_after_mount_write:
  "trace (snd (mounted c (page w ht d) [])) =
     [CallInit, RequestAnimationFrame, WriteSize (multiply w d) (multiply ht d),
      SetAttribute ''width'' (toFixed0 (multiply w d)),
      SetAttribute ''height'' (toFixed0 (multiply ht d)),
      SetTimeout 200, AddEventListener Resize, AddEventListener OrientationChange] \<and>
   size_var (fst (mounted c (page w ht d) [])) = (multiply w d, multiply ht d) \<and>
   (\<exists>ys. trace (snd (mounted c (page w ht d) evs)) = trace (snd (mounted c (page w ht d) [])) @ ys) \<and>
   written None (takeWhile (\<lambda>a. \<not> is_paint a) (trace (snd (mounted c (page w ht d) evs)))) \<noteq> None \<and>
   paints_current None (trace (snd (mounted c (page w ht d) evs))) \<and>
   take 1 (filter is_paint (trace (snd (mounted c (page w ht d) (Frame Returns # evs))))) =
     [CallPaint c (multiply w d) (multiply ht d)]"
proof -
  let ?m = "trace (snd (mounted c (page w ht d) []))"
  have a: "size_var (fst (mounted c (page w ht d) [])) = (multiply w d, multiply ht d)"
    by (simp add: mounted_def effect_body_vars) (simp add: page_def)
  obtain ys where ys: "trace (snd (mounted c (page w ht d) evs)) = ?m @ ys"
    using mounted_extends [of c "page w ht d" evs] by blast
  have "takeWhile (\<lambda>a. \<not> is_paint a) (?m @ ys) = ?m @ takeWhile (\<lambda>a. \<not> is_paint a) ys"
    by (rule takeWhile_append2) (auto simp: mounted_trace)
  then have b: "written None (takeWhile (\<lambda>a. \<not> is_paint a) (trace (snd (mounted c (page w ht d) evs)))) \<noteq> None"
    by (simp add: ys written_append mounted_trace written_Some)
  have "size_tracked (mounted c (page w ht d) evs)"
    by (simp add: mounted_def run_size_tracked effect_body_size_tracked)
  then have p: "paints_current None (trace (snd (mounted c (page w ht d) evs)))"
    by (simp add: size_tracked_def)
  obtain zs where "trace (snd (run evs (step (Frame Returns) (mounted c (page w ht d) [])))) =
      trace (snd (step (Frame Returns) (mounted c (page w ht d) []))) @ zs"
    using run_extends [of evs "step (Frame Returns) (mounted c (page w ht d) [])"] by blast
  then have "trace (snd (mounted c (page w ht d) (Frame Returns # evs))) =
      ?m @ [CallPaint c (multiply w d) (multiply ht d), RequestAnimationFrame] @ zs"
    by (simp add: mounted_def first_frame_trace [unfolded mounted_def, simplified])
  then have f: "take 1 (filter is_paint (trace (snd (mounted c (page w ht d) (Frame Returns # evs))))) =
      [CallPaint c (multiply w d) (multiply ht d)]"
    by (simp add: mounted_trace)
  from a b p f ys show ?thesis
    by (simp add: mounted_trace)
qed

theorem first_paint_after_mount_write_witness:
  "trace (snd (mounted (7::nat) (page 320 200 (Double 2 0)) [Frame Returns])) =
     [CallInit, RequestAnimationFrame, WriteSize (Finite 640) (Finite 400),
      SetAttribute ''width'' (toFixed0 (Finite 640)), SetAttribute ''height'' (toFixed0 (Finite 400)),
      SetTimeout 200, AddEventListener Resize, AddEventListener OrientationChange,
      CallPaint 7 (Finite 640) (Finite 400), RequestAnimationFrame] \<and>
   take 1 (filter is_paint (trace (snd (mounted (7::nat) (page 320 200 (Double 2 0)) [Frame Returns])))) =
     [CallPaint 7 (Finite 640) (Finite 400)]"
proof -
  have "trace (snd (mounted (7::nat) (page 320 200 (Double 2 0)) [Frame Returns])) =
     [CallInit, RequestAnimationFrame, WriteSize (Finite 640) (Finite 400),
      SetAttribute ''width'' (toFixed0 (Finite 640)), SetAttribute ''height'' (toFixed0 (Finite 400)),
      SetTimeout 200, AddEventListener Resize, AddEventListener OrientationChange,
      CallPaint 7 (Finite 640) (Finite 400), RequestAnimationFrame]"
    by (simp add: mounted_def effect_body_def host_ops page_def Let_def)
  moreover have "take 1 (filter is_paint (trace (snd (mounted (7::nat) (page 320 200 (Double 2 0)) [Frame Returns])))) =
     [CallPaint 7 (multiply 320 (Double 2 0)) (multiply 200 (Double 2 0))]"
    using first_paint_after_mount_write [of "7::nat" 320 200 "Double 2 0" "[]"] by blast
  ultimately show ?thesis by simp
qed

subsection \<open>A paint that throws\<close>

lemma step_frame_le1: "frame_queue (snd s) \<le> 1 \<Longrightarrow> frame_queue (snd (step e s)) \<le> 1"
  by (cases e; cases s) (simp_all add: host_ops Let_def split: paint_outcome.split)

lemma run_frame_le1: "frame_queue (snd s) \<le> 1 \<Longrightarrow> frame_queue (snd (run evs s)) \<le> 1"
proof (induction evs arbitrary: s)
  case Nil
  then show ?case by simp
next
  case (Cons e es)
  have "frame_queue (snd (step e s)) \<le> 1"
    using Cons.prems by (rule step_frame_le1)
  then have "frame_queue (snd (run es (step e s))) \<le> 1"
    by (rule Cons.IH)
  then show ?case by simp
qed

lemma mounted_frame_le1: "frame_queue (snd (mounted c (page w ht d) evs)) \<le> 1"
  unfolding mounted_def
  by (rule run_frame_le1) (simp add: effect_body_def host_ops page_def Let_def)

lemma step_frame_idle:
  "frame_queue (snd s) = 0 \<Longrightarrow>
     frame_queue (snd (step e s)) = 0 \<and>
     filter is_frame_work (trace (snd (step e s))) = filter is_frame_work (trace (snd s))"
  by (cases e; cases s) (simp_all add: host_ops Let_def)

lemma run_frame_idle:
  "frame_queue (snd s) = 0 \<Longrightarrow>
     frame_queue (snd (run evs s)) = 0 \<and>
     filter is_frame_work (trace (snd (run evs s))) = filter is_frame_work (trace (snd s))"
  by (induction evs arbitrary: s) (simp_all add: step_frame_idle)

lemma cleanup_frame:
  "frame_queue (snd (cleanup s)) = frame_queue (snd s)"
  "filter is_frame_work (trace (snd (cleanup s))) = filter is_frame_work (trace (snd s))"
  by (cases s; simp add: host_ops Let_def)+

lemma throw_step:
  "\<not> disposed (fst s) \<Longrightarrow> frame_queue (snd s) \<le> 1 \<Longrightarrow>
     frame_queue (snd (step (Frame Throws) s)) = 0 \<and>
     trace (snd (step (Frame Throws) s)) = trace (snd s) @
       (if frame_queue (snd s) = 0 then []
        else [CallPaint (context_var (fst s)) (fst (size_var (fst s))) (snd (size_var (fst s))), Uncaught])"
  by (cases s) (simp add: host_ops Let_def)

text \<open>
  C6. Let a frame callback run after any run of a mount, with a \<open>paint\<close> that throws. If
  a callback was queued, \<open>paint\<close> is called and the error leaves the callback uncaught.
  Afterwards no frame callback is queued, and whatever the host does next, before and
  after the unmount, none is requested and \<open>paint\<close> is not called again.
\<close>

theorem paint_throw_stops_loop:
  fixes c :: 'c and w ht :: nat and d :: double and evs1 :: "event list"
  defines "s1 \<equiv> mounted c (page w ht d) evs1"
  defines "s2 \<equiv> step (Frame Throws) s1"
  shows "trace (snd s2) = trace (snd s1) @
       (if frame_queue (snd s1) = 0 then []
        else [CallPaint c (fst (size_var (fst s1))) (snd (size_var (fst s1))), Uncaught]) \<and>
     frame_queue (snd s2) = 0 \<and>
     frame_queue (snd (run evs2 s2)) = 0 \<and>
     filter is_frame_work (trace (snd (run evs2 s2))) = filter is_frame_work (trace (snd s2)) \<and>
     frame_queue (snd (run evs3 (cleanup (run evs2 s2)))) = 0 \<and>
     filter is_frame_work (trace (snd (run evs3 (cleanup (run evs2 s2))))) =
       filter is_frame_work (trace (snd s2))"
proof -
  have t: "frame_queue (snd s2) = 0 \<and> trace (snd s2) = trace (snd s1) @
       (if frame_queue (snd s1) = 0 then []
        else [CallPaint c (fst (size_var (fst s1))) (snd (size_var (fst s1))), Uncaught])"
  proof -
    have nd: "\<not> disposed (fst s1)" and cx: "context_var (fst s1) = c"
      by (simp_all add: s1_def mounted_vars)
    have le: "frame_queue (snd s1) \<le> 1"
      unfolding s1_def by (rule mounted_frame_le1)
    show ?thesis
      using throw_step [OF nd le] by (simp add: s2_def cx)
  qed
  then have q: "frame_queue (snd s2) = 0" by simp
  have r: "frame_queue (snd (run evs2 s2)) = 0 \<and>
      filter is_frame_work (trace (snd (run evs2 s2))) = filter is_frame_work (trace (snd s2))"
    using q by (rule run_frame_idle)
  then have "frame_queue (snd (cleanup (run evs2 s2))) = 0"
    by (simp add: cleanup_frame)
  then have "frame_queue (snd (run evs3 (cleanup (run evs2 s2)))) = 0 \<and>
      filter is_frame_work (trace (snd (run evs3 (cleanup (run evs2 s2))))) =
        filter is_frame_work (trace (snd (cleanup (run evs2 s2))))"
    by (rule run_frame_idle)
  with t r show ?thesis
    by (simp add: cleanup_frame)
qed


theorem paint_throw_stops_loop_witness:
  "trace (snd (step (Frame Throws) (mounted (7::nat) (page 320 200 (Double 2 0)) [Frame Returns]))) =
     trace (snd (mounted (7::nat) (page 320 200 (Double 2 0)) [Frame Returns])) @ [CallPaint 7 (Finite 640) (Finite 400), Uncaught] \<and>
   frame_queue (snd (run [Frame Returns, Dispatch Resize, Frame Throws, Timer]
     (step (Frame Throws) (mounted (7::nat) (page 320 200 (Double 2 0)) [Frame Returns])))) = 0 \<and>
   filter is_frame_work (trace (snd (run [Frame Returns, Dispatch Resize, Frame Throws, Timer]
     (step (Frame Throws) (mounted (7::nat) (page 320 200 (Double 2 0)) [Frame Returns]))))) =
   filter is_frame_work (trace (snd (step (Frame Throws) (mounted (7::nat) (page 320 200 (Double 2 0)) [Frame Returns]))))"
proof -
  have "frame_queue (snd (mounted (7::nat) (page 320 200 (Double 2 0)) [Frame Returns])) = 1"
       "size_var (fst (mounted (7::nat) (page 320 200 (Double 2 0)) [Frame Returns])) = (Finite 640, Finite 400)"
    by (simp_all add: mounted_def effect_body_def host_ops page_def Let_def)
  then show ?thesis
    using paint_throw_stops_loop [of "7::nat" 320 200 "Double 2 0" "[Frame Returns]"
      "[Frame Returns, Dispatch Resize, Frame Throws, Timer]" "[]"]
    by simp
qed

subsection \<open>Counting the writes of size\<close>

lemmas counts = size_writes_def events_handled_def timers_fired_def

lemma step_counts:
  assumes "\<not> disposed (fst s)"
    and "size_writes (trace (snd s)) = 1 + events_handled (trace (snd s)) + timers_fired (trace (snd s))"
    and "timers_fired (trace (snd s)) + timer_queue (snd s) = 1 + events_handled (trace (snd s))"
  shows "size_writes (trace (snd (step e s))) =
       1 + events_handled (trace (snd (step e s))) + timers_fired (trace (snd (step e s))) \<and>
     timers_fired (trace (snd (step e s))) + timer_queue (snd (step e s)) =
       1 + events_handled (trace (snd (step e s)))"
proof (cases s)
  case (Pair v h)
  show ?thesis
  proof (cases e)
    case (Frame out)
    with Pair assms show ?thesis
      by (simp add: counts host_ops Let_def split: paint_outcome.split)
  next
    case Timer
    with Pair assms show ?thesis
      by (simp add: counts host_ops Let_def)
  next
    case (LayoutChange w' ht' d')
    with Pair assms show ?thesis
      by (simp add: counts)
  next
    case (Dispatch t)
    with Pair assms show ?thesis
      by (cases t) (simp_all add: counts host_ops Let_def)
  qed
qed

lemma run_counts:
  "\<not> disposed (fst s) \<Longrightarrow>
   size_writes (trace (snd s)) = 1 + events_handled (trace (snd s)) + timers_fired (trace (snd s)) \<Longrightarrow>
   timers_fired (trace (snd s)) + timer_queue (snd s) = 1 + events_handled (trace (snd s)) \<Longrightarrow>
     size_writes (trace (snd (run evs s))) =
       1 + events_handled (trace (snd (run evs s))) + timers_fired (trace (snd (run evs s))) \<and>
     timers_fired (trace (snd (run evs s))) + timer_queue (snd (run evs s)) =
       1 + events_handled (trace (snd (run evs s)))"
proof (induction evs arbitrary: s)
  case Nil
  then show ?case by simp
next
  case (Cons e es)
  have a: "\<not> disposed (fst (step e s))"
    using Cons.prems(1) by (simp add: step_disposed)
  have b: "size_writes (trace (snd (step e s))) =
       1 + events_handled (trace (snd (step e s))) + timers_fired (trace (snd (step e s))) \<and>
     timers_fired (trace (snd (step e s))) + timer_queue (snd (step e s)) =
       1 + events_handled (trace (snd (step e s)))"
    using Cons.prems by (rule step_counts)
  show ?case
    using Cons.IH [OF a conjunct1 [OF b] conjunct2 [OF b]] by simp
qed

lemma mounted_counts:
  "size_writes (trace (snd (mounted c (page w ht d) evs))) =
       1 + events_handled (trace (snd (mounted c (page w ht d) evs))) +
       timers_fired (trace (snd (mounted c (page w ht d) evs))) \<and>
   timers_fired (trace (snd (mounted c (page w ht d) evs))) + timer_queue (snd (mounted c (page w ht d) evs)) =
       1 + events_handled (trace (snd (mounted c (page w ht d) evs)))"
  unfolding mounted_def
  by (rule run_counts) (simp_all add: effect_body_def counts host_ops page_def Let_def)

lemma step_unheard:
  "listeners (snd s) = [] \<Longrightarrow> events_handled (trace (snd (step e s))) = events_handled (trace (snd s))"
  by (cases e; cases s) (simp_all add: counts host_ops Let_def split: paint_outcome.split)

lemma run_unheard:
  "listeners (snd s) = [] \<Longrightarrow> events_handled (trace (snd (run evs s))) = events_handled (trace (snd s))"
  by (induction evs arbitrary: s) (simp_all add: step_unheard step_listeners)

text \<open>
  C3, as the code has it. The listener is \<open>requestResize\<close>, which writes at once and arms
  one timer, as the mount does. So up to the unmount the writes of \<open>size\<close> number one for
  the mount, one for every event handled, and one for every timer that has fired; the
  timers fired and the timers still queued are together one more than the events
  handled. After the unmount no event reaches the listener and \<open>size\<close> is not written.
\<close>

theorem writes_per_call_and_fired_timer:
  "size_writes (trace (snd (mounted c (page w ht d) evs1))) =
       1 + events_handled (trace (snd (mounted c (page w ht d) evs1))) +
       timers_fired (trace (snd (mounted c (page w ht d) evs1))) \<and>
   timers_fired (trace (snd (mounted c (page w ht d) evs1))) + timer_queue (snd (mounted c (page w ht d) evs1)) =
       1 + events_handled (trace (snd (mounted c (page w ht d) evs1))) \<and>
   size_writes (trace (snd (lifecycle c (page w ht d) evs1 evs2))) =
       size_writes (trace (snd (mounted c (page w ht d) evs1))) \<and>
   events_handled (trace (snd (lifecycle c (page w ht d) evs1 evs2))) =
       events_handled (trace (snd (mounted c (page w ht d) evs1))) \<and>
   filter is_write (after_disposal (trace (snd (lifecycle c (page w ht d) evs1 evs2)))) = []"
proof -
  obtain ys where ys: "trace (snd (lifecycle c (page w ht d) evs1 evs2)) =
          trace (snd (mounted c (page w ht d) evs1)) @
          [WriteDisposed True, RemoveEventListener Resize, RemoveEventListener OrientationChange, CallFree c] @ ys"
      and q: "filter is_live_work ys = []"
    using lifecycle_split [of c w ht d evs1 evs2] by blast
  have "filter is_write ys = filter is_write (filter is_live_work ys)"
    by (rule filter_through) (rule write_sub)
  with q have w0: "filter is_write ys = []" by simp
  then have a: "size_writes (trace (snd (lifecycle c (page w ht d) evs1 evs2))) =
       size_writes (trace (snd (mounted c (page w ht d) evs1)))"
    by (simp add: ys size_writes_def)
  have "events_handled (trace (snd (run evs2 (cleanup (mounted c (page w ht d) evs1))))) =
      events_handled (trace (snd (cleanup (mounted c (page w ht d) evs1))))"
    by (rule run_unheard) (rule cleanup_listeners)
  then have b: "events_handled (trace (snd (lifecycle c (page w ht d) evs1 evs2))) =
       events_handled (trace (snd (mounted c (page w ht d) evs1)))"
    by (simp add: lifecycle_def cleanup_trace events_handled_def)
  obtain zs where zs: "after_disposal (trace (snd (lifecycle c (page w ht d) evs1 evs2))) =
          [WriteDisposed True, RemoveEventListener Resize, RemoveEventListener OrientationChange, CallFree c] @ zs"
      and qz: "filter is_live_work zs = []"
    using lifecycle_after_disposal [of c w ht d evs1 evs2] by blast
  have "filter is_write zs = filter is_write (filter is_live_work zs)"
    by (rule filter_through) (rule write_sub)
  with qz have d: "filter is_write (after_disposal (trace (snd (lifecycle c (page w ht d) evs1 evs2)))) = []"
    by (simp add: zs)
  from mounted_counts [of c w ht d evs1] a b d show ?thesis
    by blast
qed

theorem writes_per_call_and_fired_timer_witness:
  "size_writes (trace (snd (mounted (7::nat) (page 320 200 (Double 2 0)) [Dispatch Resize, Timer, Dispatch OrientationChange]))) = 4 \<and>
   events_handled (trace (snd (mounted (7::nat) (page 320 200 (Double 2 0)) [Dispatch Resize, Timer, Dispatch OrientationChange]))) = 2 \<and>
   timers_fired (trace (snd (mounted (7::nat) (page 320 200 (Double 2 0)) [Dispatch Resize, Timer, Dispatch OrientationChange]))) = 1 \<and>
   timer_queue (snd (mounted (7::nat) (page 320 200 (Double 2 0)) [Dispatch Resize, Timer, Dispatch OrientationChange])) = 2 \<and>
   size_writes (trace (snd (lifecycle (7::nat) (page 320 200 (Double 2 0))
      [Dispatch Resize, Timer, Dispatch OrientationChange] [Timer, Dispatch Resize, Timer]))) = 4"
proof -
  have "events_handled (trace (snd (mounted (7::nat) (page 320 200 (Double 2 0)) [Dispatch Resize, Timer, Dispatch OrientationChange]))) = 2"
    and "timers_fired (trace (snd (mounted (7::nat) (page 320 200 (Double 2 0)) [Dispatch Resize, Timer, Dispatch OrientationChange]))) = 1"
    by (simp_all add: mounted_def effect_body_def counts host_ops page_def Let_def)
  then show ?thesis
    using writes_per_call_and_fired_timer [of "7::nat" 320 200 "Double 2 0"
      "[Dispatch Resize, Timer, Dispatch OrientationChange]" "[Timer, Dispatch Resize, Timer]"]
    by simp
qed

text \<open>
  C3 as stated fails: after a mount, one \<open>resize\<close> event and the two timers, \<open>size\<close> has
  been written four times, not the one event plus two.
\<close>

theorem writes_not_events_plus_two:
  "size_writes (trace (snd (lifecycle (7::nat) (page 320 200 (Double 2 0)) [Dispatch Resize, Timer, Timer] []))) = 4 \<and>
   events_handled (trace (snd (lifecycle (7::nat) (page 320 200 (Double 2 0)) [Dispatch Resize, Timer, Timer] []))) = 1 \<and>
   size_writes (trace (snd (lifecycle (7::nat) (page 320 200 (Double 2 0)) [Dispatch Resize, Timer, Timer] []))) \<noteq>
     events_handled (trace (snd (lifecycle (7::nat) (page 320 200 (Double 2 0)) [Dispatch Resize, Timer, Timer] []))) + 2"
  by (simp add: lifecycle_def mounted_def effect_body_def counts host_ops page_def Let_def)

end
